theory Spec2Isabelle
  imports Complex_Main
begin

section \<open>RadioWorker: the streaming engine of src/main.cpp\<close>

text \<open>
  The embedding follows \<^verbatim>\<open>RadioWorker::run\<close> (src/main.cpp, lines 47-114).
  The arithmetic of the machine is a parameter of the embedding: the type of a
  \<^verbatim>\<open>double\<close>, the type of a \<^verbatim>\<open>float\<close>, and every operation that the code performs on
  them. The code runs with one such arithmetic (IEEE 754 with the \<^verbatim>\<open>cos\<close> and \<^verbatim>\<open>sin\<close> of
  the platform); what is proved for every arithmetic holds for that one.
\<close>

subsection \<open>Arithmetic\<close>

text \<open>
  The operations of lines 79-94: the \<^verbatim>\<open>double\<close> denoted by a decimal literal, \<^verbatim>\<open>M_PI\<close>,
  the four operations, the comparison \<^verbatim>\<open>>\<close>, \<^verbatim>\<open>cos\<close>, \<^verbatim>\<open>sin\<close>, the narrowing of a
  \<^verbatim>\<open>double\<close> to the \<^verbatim>\<open>float\<close> of a \<^verbatim>\<open>std::complex<float>\<close> (line 92), and the
  \<^verbatim>\<open>float\<close> zero of a value-initialised vector (line 73).
\<close>

record ('d, 'f) arithmetic =
  lit :: "real \<Rightarrow> 'd"
  m_pi :: 'd
  d_add :: "'d \<Rightarrow> 'd \<Rightarrow> 'd"
  d_sub :: "'d \<Rightarrow> 'd \<Rightarrow> 'd"
  d_mul :: "'d \<Rightarrow> 'd \<Rightarrow> 'd"
  d_div :: "'d \<Rightarrow> 'd \<Rightarrow> 'd"
  d_gt :: "'d \<Rightarrow> 'd \<Rightarrow> bool"
  d_cos :: "'d \<Rightarrow> 'd"
  d_sin :: "'d \<Rightarrow> 'd"
  narrow :: "'d \<Rightarrow> 'f"
  f_zero :: 'f

text \<open>
  Exact arithmetic on the real numbers, without rounding anywhere. It is not the
  arithmetic of the machine; it is the reading under which statements that hold up to
  a tolerance are made.
\<close>

definition exact :: "(real, real) arithmetic" where
  "exact =
     \<lparr>lit = (\<lambda>x. x), m_pi = pi, d_add = (+), d_sub = (-), d_mul = (*), d_div = (/),
      d_gt = (\<lambda>x y. y < x), d_cos = cos, d_sin = sin, narrow = (\<lambda>x. x), f_zero = 0\<rparr>"

text \<open>
  The narrowing of IEEE 754 from binary64 to binary32, on values in the normal range of
  binary32: the value is scaled by powers of two until it has 24 binary digits before
  the point, rounded to the nearest integer with ties to the even one, and scaled back.
\<close>

definition round_to_even :: "real \<Rightarrow> int" where
  "round_to_even y =
     (let f = \<lfloor>y\<rfloor>; r = y - of_int f
      in if r < 1 / 2 then f else if 1 / 2 < r then f + 1 else if even f then f else f + 1)"

primrec normalise :: "nat \<Rightarrow> real \<Rightarrow> int \<Rightarrow> real \<times> int" where
  "normalise 0 y e = (y, e)"
| "normalise (Suc fuel) y e =
     (if 16777216 \<le> y then normalise fuel (y / 2) (e + 1)
      else if y < 8388608 then normalise fuel (2 * y) (e - 1)
      else (y, e))"

definition to_float :: "real \<Rightarrow> real" where
  "to_float x =
     (if x = 0 then 0
      else (case normalise 300 \<bar>x\<bar> 0 of (y, e) \<Rightarrow>
              sgn x * of_int (round_to_even y) *
              (if 0 \<le> e then 2 ^ nat e else 1 / 2 ^ nat (- e))))"

text \<open>
  Exact arithmetic on the doubles with the narrowing of the machine. Where the
  operations of the machine are exact (a product with \<^verbatim>\<open>1.0\<close> or \<^verbatim>\<open>-1.0\<close>, \<^verbatim>\<open>cos\<close> and
  \<^verbatim>\<open>sin\<close> of \<^verbatim>\<open>0.0\<close>, a comparison with zero) it computes what the machine computes.
\<close>

definition narrowing :: "(real, real) arithmetic" where
  "narrowing = exact\<lparr>narrow := to_float\<rparr>"

subsection \<open>Samples and constants\<close>

text \<open>A \<^verbatim>\<open>std::complex<float>\<close>: the pair of its real and its imaginary part.\<close>

type_synonym 'f sample = "'f \<times> 'f"

text \<open>The values of \<^verbatim>\<open>waveform_type\<close>: \<^verbatim>\<open>0=Sine, 1=Square\<close> (line 41).\<close>

definition SINE :: int where
  "SINE = 0"

definition SQUARE :: int where
  "SQUARE = 1"

text \<open>Lines 72, 75, 76 and 79: the locals of the generation loop, never reassigned.\<close>

definition buff_size :: nat where
  "buff_size = 2048"

definition current_freq :: "('d, 'f) arithmetic \<Rightarrow> 'd" where
  "current_freq a = lit a 10000"

definition sample_rate :: "('d, 'f) arithmetic \<Rightarrow> 'd" where
  "sample_rate a = lit a 1000000"

definition increment :: "('d, 'f) arithmetic \<Rightarrow> 'd" where
  "increment a =
     d_div a (d_mul a (d_mul a (lit a 2) (m_pi a)) (current_freq a)) (sample_rate a)"

subsection \<open>The sample loop (lines 83-95)\<close>

text \<open>Lines 85-92: the sample written to \<^verbatim>\<open>buff[i]\<close> at the current phase.\<close>

definition waveform_sample :: "('d, 'f) arithmetic \<Rightarrow> int \<Rightarrow> 'd \<Rightarrow> 'd \<Rightarrow> 'f sample" where
  "waveform_sample a type amp phase =
     (let val_i = (if type = 0 then d_cos a phase
                   else (if d_gt a (d_cos a phase) (lit a 0) then lit a 1 else lit a (- 1)));
          val_q = (if type = 0 then d_sin a phase
                   else (if d_gt a (d_sin a phase) (lit a 0) then lit a 1 else lit a (- 1)))
      in (narrow a (d_mul a val_i amp), narrow a (d_mul a val_q amp)))"

text \<open>Lines 93-94: \<^verbatim>\<open>phase += increment; if (phase > 2 * M_PI) phase -= 2 * M_PI;\<close>\<close>

definition advance_phase :: "('d, 'f) arithmetic \<Rightarrow> 'd \<Rightarrow> 'd \<Rightarrow> 'd" where
  "advance_phase a inc phase =
     (let phase1 = d_add a phase inc
      in if d_gt a phase1 (d_mul a (lit a 2) (m_pi a))
         then d_sub a phase1 (d_mul a (lit a 2) (m_pi a))
         else phase1)"

text \<open>One pass of the body of the \<^verbatim>\<open>for\<close> loop, on the pair of the buffer and the phase.\<close>

definition sample_step ::
  "('d, 'f) arithmetic \<Rightarrow> 'd \<Rightarrow> 'd \<Rightarrow> int \<Rightarrow> nat \<Rightarrow> 'f sample list \<times> 'd \<Rightarrow> 'f sample list \<times> 'd" where
  "sample_step a inc amp type i st =
     (case st of (buff, phase) \<Rightarrow>
        (buff[i := waveform_sample a type amp phase], advance_phase a inc phase))"

text \<open>
  The \<^verbatim>\<open>for\<close> loop over \<^verbatim>\<open>i = 0 .. n - 1\<close>; the code runs it with \<^verbatim>\<open>n = buff_size\<close> on a
  buffer of that length and with the increment of line 79.
\<close>

definition fill_buffer ::
  "('d, 'f) arithmetic \<Rightarrow> nat \<Rightarrow> 'd \<Rightarrow> 'd \<Rightarrow> int \<Rightarrow> 'f sample list \<times> 'd \<Rightarrow> 'f sample list \<times> 'd" where
  "fill_buffer a n inc amp type st = fold (sample_step a inc amp type) [0..<n] st"

text \<open>The phase accumulator after \<open>k\<close> passes of the loop body, started at \<open>phase\<close>.\<close>

primrec phase_at :: "('d, 'f) arithmetic \<Rightarrow> 'd \<Rightarrow> 'd \<Rightarrow> nat \<Rightarrow> 'd" where
  "phase_at a inc phase 0 = phase"
| "phase_at a inc phase (Suc k) = advance_phase a inc (phase_at a inc phase k)"

subsection \<open>The worker and its environment\<close>

text \<open>
  The four atomics written by the user interface (lines 38-41). The worker only loads
  them; a load returns whatever the interface stored last, so each load is an input.
\<close>

record 'd registers =
  frequency :: 'd
  gain :: 'd
  amplitude :: 'd
  waveform_type :: int

text \<open>The two flags of \<^verbatim>\<open>uhd::tx_metadata_t\<close> that the worker sets.\<close>

record tx_metadata =
  start_of_burst :: bool
  end_of_burst :: bool

text \<open>
  The calls that leave the worker, in the order of the source: the five driver calls of
  the connection attempt, \<^verbatim>\<open>tx_stream->send\<close> and \<^verbatim>\<open>QThread::usleep\<close>.
\<close>

datatype ('d, 'f) driver_call =
    Make string
  | Set_tx_rate 'd
  | Set_tx_freq 'd
  | Set_tx_gain 'd
  | Get_tx_stream string
  | Send "'f sample list" tx_metadata
  | Usleep nat

text \<open>
  What ends \<^verbatim>\<open>run\<close> abnormally: an exception thrown by a driver call, or the
  dereference of a \<^verbatim>\<open>tx_stream\<close> that was never assigned.
\<close>

datatype exn = Uhd_exception | Null_dereference

datatype connect_step = Step_make | Step_set_tx_rate | Step_set_tx_freq | Step_set_tx_gain | Step_get_tx_stream

text \<open>
  One pass of \<^verbatim>\<open>while (running)\<close> as the environment decides it: the register values
  of that pass, whether the driver's \<^verbatim>\<open>send\<close> throws, and what \<^verbatim>\<open>tryLock\<close> returns.
\<close>

record 'd cycle_env = "'d registers" +
  send_throws :: bool
  try_lock :: bool

text \<open>
  The environment of one call of \<^verbatim>\<open>run\<close>: the driver call of the connection attempt
  that throws (if any), the registers as loaded during that attempt, one entry for each
  pass in which \<^verbatim>\<open>running\<close> was read as true (the list ends where it is read as
  false), and whether the closing \<^verbatim>\<open>send\<close> throws.
\<close>

record 'd run_env =
  connect_throws :: "connect_step option"
  regs_at_connect :: "'d registers"
  cycles :: "'d cycle_env list"
  last_send_throws :: bool

text \<open>
  The members of \<^verbatim>\<open>RadioWorker\<close> that \<^verbatim>\<open>run\<close> reads or writes (lines 35, 44, 45). The
  object outlives a run: \<^verbatim>\<open>toggleConnection\<close> starts the same worker again.
\<close>

record 'f worker =
  hardware_connected :: bool
  shared_buffer :: "'f sample list"
  device_args :: string

text \<open>
  The worker together with the locals of \<^verbatim>\<open>run\<close>: \<^verbatim>\<open>tx_stream\<close> (true once it points
  to a streamer), \<^verbatim>\<open>md\<close>, \<^verbatim>\<open>buff\<close>, \<^verbatim>\<open>phase\<close>, and the calls made so far.
\<close>

record ('d, 'f) run_state = "'f worker" +
  tx_stream :: bool
  md :: tx_metadata
  buff :: "'f sample list"
  phase :: 'd
  calls :: "('d, 'f) driver_call list"

type_synonym ('d, 'f) outcome = "(exn \<times> ('d, 'f) run_state) + ('d, 'f) run_state"

text \<open>Sequencing: an exception skips the rest.\<close>

definition and_then ::
  "('d, 'f) outcome \<Rightarrow> (('d, 'f) run_state \<Rightarrow> ('d, 'f) outcome) \<Rightarrow> ('d, 'f) outcome" where
  "and_then r f = (case r of Inl e \<Rightarrow> Inl e | Inr s \<Rightarrow> f s)"

text \<open>A call into the driver: it is made, and then it returns or throws.\<close>

definition driver ::
  "bool \<Rightarrow> ('d, 'f) driver_call \<Rightarrow> ('d, 'f) run_state \<Rightarrow> ('d, 'f) outcome" where
  "driver throws c s =
     (let s1 = s\<lparr>calls := calls s @ [c]\<rparr>
      in if throws then Inl (Uhd_exception, s1) else Inr s1)"

text \<open>Lines 54-66: the body of the \<^verbatim>\<open>try\<close> block.\<close>

definition try_connect ::
  "('d, 'f) arithmetic \<Rightarrow> 'd run_env \<Rightarrow> ('d, 'f) run_state \<Rightarrow> ('d, 'f) outcome" where
  "try_connect a env s =
     (if device_args s \<noteq> [] then
        and_then (driver (connect_throws env = Some Step_make) (Make (device_args s)) s) (\<lambda>s.
        and_then (driver (connect_throws env = Some Step_set_tx_rate) (Set_tx_rate (lit a 1000000)) s) (\<lambda>s.
        and_then (driver (connect_throws env = Some Step_set_tx_freq)
                    (Set_tx_freq (frequency (regs_at_connect env))) s) (\<lambda>s.
        and_then (driver (connect_throws env = Some Step_set_tx_gain)
                    (Set_tx_gain (gain (regs_at_connect env))) s) (\<lambda>s.
        and_then (driver (connect_throws env = Some Step_get_tx_stream) (Get_tx_stream ''fc32'') s) (\<lambda>s.
          Inr (s\<lparr>tx_stream := True,
                 md := \<lparr>start_of_burst = True, end_of_burst = False\<rparr>,
                 hardware_connected := True\<rparr>))))))
      else Inr s)"

text \<open>Lines 53-69: the \<^verbatim>\<open>try\<close> block with its \<^verbatim>\<open>catch (...)\<close>.\<close>

definition connection_attempt ::
  "('d, 'f) arithmetic \<Rightarrow> 'd run_env \<Rightarrow> ('d, 'f) run_state \<Rightarrow> ('d, 'f) run_state" where
  "connection_attempt a env s =
     (case try_connect a env s of
        Inl (e, s1) \<Rightarrow> s1\<lparr>hardware_connected := False\<rparr>
      | Inr s1 \<Rightarrow> s1)"

text \<open>Lines 79-95: load amplitude and waveform, fill the buffer.\<close>

definition generate ::
  "('d, 'f) arithmetic \<Rightarrow> 'd cycle_env \<Rightarrow> ('d, 'f) run_state \<Rightarrow> ('d, 'f) run_state" where
  "generate a c s =
     (let amp = amplitude c;
          type = waveform_type c;
          r = fill_buffer a buff_size (increment a) amp type (buff s, phase s)
      in s\<lparr>buff := fst r, phase := snd r\<rparr>)"

text \<open>Lines 97-102: send to the device, or sleep.\<close>

definition transmit :: "'d cycle_env \<Rightarrow> ('d, 'f) run_state \<Rightarrow> ('d, 'f) outcome" where
  "transmit c s =
     (if hardware_connected s then
        (if tx_stream s then
           and_then (driver (send_throws c) (Send (buff s) (md s)) s) (\<lambda>s.
             Inr (s\<lparr>md := (md s)\<lparr>start_of_burst := False\<rparr>\<rparr>))
         else Inl (Null_dereference, s))
      else Inr (s\<lparr>calls := calls s @ [Usleep 2000]\<rparr>))"

text \<open>Lines 104-107: publish the buffer if the mutex is free.\<close>

definition publish :: "'d cycle_env \<Rightarrow> ('d, 'f) run_state \<Rightarrow> ('d, 'f) run_state" where
  "publish c s = (if try_lock c then s\<lparr>shared_buffer := buff s\<rparr> else s)"

text \<open>Lines 79-107: one pass of the \<^verbatim>\<open>while\<close> loop.\<close>

definition cycle ::
  "('d, 'f) arithmetic \<Rightarrow> 'd cycle_env \<Rightarrow> ('d, 'f) run_state \<Rightarrow> ('d, 'f) outcome" where
  "cycle a c s = and_then (transmit c (generate a c s)) (\<lambda>s. Inr (publish c s))"

text \<open>Lines 78-108: the \<^verbatim>\<open>while (running)\<close> loop over the passes the environment allows.\<close>

fun while_running ::
  "('d, 'f) arithmetic \<Rightarrow> 'd cycle_env list \<Rightarrow> ('d, 'f) run_state \<Rightarrow> ('d, 'f) outcome" where
  "while_running a [] s = Inr s"
| "while_running a (c # cs) s =
     (case cycle a c s of Inl e \<Rightarrow> Inl e | Inr s1 \<Rightarrow> while_running a cs s1)"

text \<open>Lines 110-113: the end of the burst.\<close>

definition end_burst :: "'d run_env \<Rightarrow> ('d, 'f) run_state \<Rightarrow> ('d, 'f) outcome" where
  "end_burst env s =
     (if hardware_connected s then
        (let s1 = s\<lparr>md := (md s)\<lparr>end_of_burst := True\<rparr>\<rparr>
         in if tx_stream s1 then driver (last_send_throws env) (Send [] (md s1)) s1
            else Inl (Null_dereference, s1))
      else Inr s)"

text \<open>Lines 48-50 and 72-74: the locals as \<^verbatim>\<open>run\<close> declares them.\<close>

definition enter :: "('d, 'f) arithmetic \<Rightarrow> 'f worker \<Rightarrow> ('d, 'f) run_state" where
  "enter a w =
     \<lparr>hardware_connected = hardware_connected w,
      shared_buffer = shared_buffer w,
      device_args = device_args w,
      tx_stream = False,
      md = \<lparr>start_of_burst = False, end_of_burst = False\<rparr>,
      buff = replicate buff_size (f_zero a, f_zero a),
      phase = lit a 0,
      calls = []\<rparr>"

text \<open>\<^verbatim>\<open>RadioWorker::run\<close>.\<close>

definition run :: "('d, 'f) arithmetic \<Rightarrow> 'f worker \<Rightarrow> 'd run_env \<Rightarrow> ('d, 'f) outcome" where
  "run a w env =
     and_then (while_running a (cycles env) (connection_attempt a env (enter a w))) (end_burst env)"

text \<open>A worker as the constructor leaves it (lines 35, 44, 45), with the device chosen.\<close>

definition fresh_worker :: "string \<Rightarrow> 'f worker" where
  "fresh_worker args = \<lparr>hardware_connected = False, shared_buffer = [], device_args = args\<rparr>"

subsection \<open>Observations on an outcome\<close>

definition escaped :: "('d, 'f) outcome \<Rightarrow> exn option" where
  "escaped r = (case r of Inl (e, s) \<Rightarrow> Some e | Inr s \<Rightarrow> None)"

definition final_state :: "('d, 'f) outcome \<Rightarrow> ('d, 'f) run_state" where
  "final_state r = (case r of Inl (e, s) \<Rightarrow> s | Inr s \<Rightarrow> s)"

text \<open>The transmissions among the calls: the number of samples and the metadata of each.\<close>

fun sends :: "('d, 'f) driver_call list \<Rightarrow> (nat \<times> tx_metadata) list" where
  "sends [] = []"
| "sends (Send b m # cs) = (length b, m) # sends cs"
| "sends (c # cs) = sends cs"

text \<open>The calls that set the centre frequency or the gain of the device.\<close>

fun tunings :: "('d, 'f) driver_call list \<Rightarrow> ('d, 'f) driver_call list" where
  "tunings [] = []"
| "tunings (Set_tx_freq f # cs) = Set_tx_freq f # tunings cs"
| "tunings (Set_tx_gain g # cs) = Set_tx_gain g # tunings cs"
| "tunings (c # cs) = tunings cs"

subsection \<open>Expected transmissions and sample environments\<close>

text \<open>
  The data transmissions of \<open>n\<close> passes that start with metadata \<open>m\<close>: each carries a
  full buffer, and the start-of-burst flag is cleared after the first (line 99).
\<close>

fun frames :: "tx_metadata \<Rightarrow> nat \<Rightarrow> (nat \<times> tx_metadata) list" where
  "frames m 0 = []"
| "frames m (Suc n) = (buff_size, m) # frames (m\<lparr>start_of_burst := False\<rparr>) n"

text \<open>
  The registers as the constructor initialises them (lines 38-41), a pass of the loop
  with these values of frequency and gain, and a run environment built from a list of
  passes whose closing \<^verbatim>\<open>send\<close> returns; the values are written as real numbers.
\<close>

definition default_registers :: "real registers" where
  "default_registers = \<lparr>frequency = 915000000, gain = 40, amplitude = 1, waveform_type = 0\<rparr>"

definition pass :: "real \<Rightarrow> int \<Rightarrow> bool \<Rightarrow> bool \<Rightarrow> real cycle_env" where
  "pass amp type throws lock =
     \<lparr>frequency = 915000000, gain = 40, amplitude = amp, waveform_type = type,
      send_throws = throws, try_lock = lock\<rparr>"

definition session :: "connect_step option \<Rightarrow> real cycle_env list \<Rightarrow> real run_env" where
  "session st cs =
     \<lparr>connect_throws = st, regs_at_connect = default_registers, cycles = cs,
      last_send_throws = False\<rparr>"

subsection \<open>The snapshot channel under interleaving\<close>















subsection \<open>Facts about the sample loop\<close>

lemma fill_buffer_Suc:
  "fill_buffer a (Suc n) inc amp type st = sample_step a inc amp type n (fill_buffer a n inc amp type st)"
  by (simp add: fill_buffer_def)

lemma fill_buffer_length:
  "length (fst (fill_buffer a n inc amp type (b, ph))) = length b"
  by (induction n) (auto simp: fill_buffer_def sample_step_def split: prod.splits)

lemma fill_buffer_phase:
  "snd (fill_buffer a n inc amp type (b, ph)) = phase_at a inc ph n"
  by (induction n) (auto simp: fill_buffer_def sample_step_def split: prod.splits)

lemma fill_buffer_nth_done:
  "i < n \<Longrightarrow> n \<le> length b \<Longrightarrow>
   fst (fill_buffer a n inc amp type (b, ph)) ! i = waveform_sample a type amp (phase_at a inc ph i)"
proof (induction n)
  case 0
  then show ?case by simp
next
  case (Suc n)
  obtain xs p where bp: "fill_buffer a n inc amp type (b, ph) = (xs, p)"
    by (cases "fill_buffer a n inc amp type (b, ph)")
  have len: "length xs = length b"
    using fill_buffer_length [of a n inc amp type b ph] bp by simp
  have pp: "p = phase_at a inc ph n"
    using fill_buffer_phase [of a n inc amp type b ph] bp by simp
  show ?case
  proof (cases "i = n")
    case True
    with Suc.prems len pp bp show ?thesis
      by (simp add: fill_buffer_Suc sample_step_def)
  next
    case False
    with Suc.prems have "i < n" by simp
    with Suc bp False show ?thesis
      by (simp add: fill_buffer_Suc sample_step_def)
  qed
qed

lemma phase_at_add:
  "phase_at a inc ph (m + n) = phase_at a inc (phase_at a inc ph m) n"
  by (induction n) simp_all

subsection \<open>Facts about the phase accumulator in exact arithmetic\<close>

lemma exact_fields [simp]:
  "lit exact x = x"
  "m_pi exact = pi"
  "d_add exact x y = x + y"
  "d_sub exact x y = x - y"
  "d_mul exact x y = x * y"
  "d_div exact x y = x / y"
  "d_gt exact x y = (y < x)"
  "d_cos exact x = cos x"
  "d_sin exact x = sin x"
  "narrow exact x = x"
  "f_zero exact = 0"
  by (simp_all add: exact_def)

lemma advance_phase_exact:
  "advance_phase exact inc ph =
     (let phase1 = ph + inc in if 2 * pi < phase1 then phase1 - 2 * pi else phase1)"
  by (simp add: advance_phase_def Let_def)

lemma phase_at_congruent:
  "\<exists>k. k \<le> n \<and> phase_at exact inc ph n = ph + real n * inc - 2 * pi * real k"
proof (induction n)
  case 0
  then show ?case by simp
next
  case (Suc n)
  then obtain k where k: "k \<le> n" "phase_at exact inc ph n = ph + real n * inc - 2 * pi * real k"
    by blast
  show ?case
  proof (cases "phase_at exact inc ph n + inc > 2 * pi")
    case True
    then have "phase_at exact inc ph (Suc n) = ph + real (Suc n) * inc - 2 * pi * real (Suc k)"
      using k by (simp add: advance_phase_exact algebra_simps)
    with k show ?thesis by (meson Suc_le_mono)
  next
    case False
    then have "phase_at exact inc ph (Suc n) = ph + real (Suc n) * inc - 2 * pi * real k"
      using k by (simp add: advance_phase_exact algebra_simps)
    with k show ?thesis by (meson le_SucI)
  qed
qed

lemma sin_cos_phase_at:
  "sin (phase_at exact inc ph n) = sin (ph + real n * inc) \<and>
   cos (phase_at exact inc ph n) = cos (ph + real n * inc)"
proof -
  obtain k where "phase_at exact inc ph n = ph + real n * inc - 2 * pi * real k"
    using phase_at_congruent by blast
  then have "phase_at exact inc ph n = (ph + real n * inc) + 2 * pi * of_int (- int k)"
    by simp
  then show ?thesis
    using sin_cos_eq_iff [of "phase_at exact inc ph n" "ph + real n * inc"] by blast
qed

lemma increment_eq: "increment exact = pi / 50"
  by (simp add: increment_def current_freq_def sample_rate_def)

lemma advance_phase_below:
  "r \<le> 98 \<Longrightarrow> advance_phase exact (pi / 50) (pi * real (r + 1) / 50) = pi * real (r + 2) / 50"
proof -
  assume r98: "r \<le> 98"
  have e: "pi * real (r + 1) / 50 + pi / 50 = pi * real (r + 2) / 50"
    by (simp add: algebra_simps)
  have "real (r + 2) \<le> 100" using r98 by simp
  then have "pi * real (r + 2) \<le> pi * 100"
    using pi_gt_zero by (simp only: mult_le_cancel_left_pos)
  then have "\<not> pi * real (r + 2) / 50 > 2 * pi" by simp
  then show ?thesis unfolding advance_phase_exact Let_def e by (simp only: if_False)
qed

lemma advance_phase_wrap:
  "advance_phase exact (pi / 50) (2 * pi) = pi / 50"
  using pi_gt_zero by (simp add: advance_phase_exact)



lemma phase_at_closed:
  "phase_at exact (pi / 50) 0 (Suc m) = pi * real (m mod 100 + 1) / 50"
proof (induction m)
  case 0
  have "advance_phase exact (pi / 50) 0 = pi / 50"
    using pi_gt_zero by (simp add: advance_phase_exact)
  then show ?case by simp
next
  case (Suc m)
  define r where "r = m mod 100"
  have r: "r < 100" by (simp add: r_def)
  have ph: "phase_at exact (pi / 50) 0 (Suc m) = pi * real (r + 1) / 50"
    using Suc by (simp only: r_def)
  have step: "phase_at exact (pi / 50) 0 (Suc (Suc m)) = advance_phase exact (pi / 50) (pi * real (r + 1) / 50)"
    using ph by (simp only: phase_at.simps)
  show ?case
  proof (cases "r = 99")
    case True
    then have sm: "Suc m mod 100 = 0" unfolding r_def by (simp add: mod_Suc)
    have "real (r + 1) = 100" using True by simp
    then have "pi * real (r + 1) / 50 = 2 * pi" by simp
    then have "phase_at exact (pi / 50) 0 (Suc (Suc m)) = pi / 50"
      using step advance_phase_wrap by (simp only:)
    moreover have "pi * real (Suc m mod 100 + 1) / 50 = pi / 50"
      by (simp only: sm) simp
    ultimately show ?thesis by (simp only:)
  next
    case False
    with r have r98: "r \<le> 98" by simp
    have sm: "Suc m mod 100 = r + 1" using False unfolding r_def by (simp add: mod_Suc)
    have "phase_at exact (pi / 50) 0 (Suc (Suc m)) = pi * real (r + 2) / 50"
      using step advance_phase_below [OF r98] by (simp only:)
    moreover have "real (Suc m mod 100 + 1) = real (r + 2)" by (simp only: sm)
    ultimately show ?thesis by (simp only:)
  qed
qed


subsection \<open>Facts about one pass of the loop\<close>

lemma generate_fields [simp]:
  "hardware_connected (generate a c s) = hardware_connected s"
  "tx_stream (generate a c s) = tx_stream s"
  "device_args (generate a c s) = device_args s"
  "shared_buffer (generate a c s) = shared_buffer s"
  "md (generate a c s) = md s"
  "calls (generate a c s) = calls s"
  by (simp_all add: generate_def Let_def)

lemma generate_phase [simp]:
  "phase (generate a c s) = phase_at a (increment a) (phase s) buff_size"
  by (simp add: generate_def Let_def fill_buffer_phase)

lemma generate_length [simp]:
  "length (buff (generate a c s)) = length (buff s)"
  by (simp add: generate_def Let_def fill_buffer_length)

lemma generate_nth:
  "i < buff_size \<Longrightarrow> buff_size \<le> length (buff s) \<Longrightarrow>
   buff (generate a c s) ! i =
     waveform_sample a (waveform_type c) (amplitude c) (phase_at a (increment a) (phase s) i)"
  by (simp add: generate_def Let_def fill_buffer_nth_done)

lemma cycle_simulated:
  "\<not> hardware_connected s \<Longrightarrow>
   cycle a c s = Inr (publish c ((generate a c s)\<lparr>calls := calls s @ [Usleep 2000]\<rparr>))"
  by (simp add: cycle_def transmit_def and_then_def)

lemma cycle_sent:
  "hardware_connected s \<Longrightarrow> tx_stream s \<Longrightarrow> \<not> send_throws c \<Longrightarrow>
   cycle a c s =
     Inr (publish c ((generate a c s)
            \<lparr>calls := calls s @ [Send (buff (generate a c s)) (md s)],
             md := (md s)\<lparr>start_of_burst := False\<rparr>\<rparr>))"
  by (simp add: cycle_def transmit_def and_then_def driver_def)

lemma cycle_thrown:
  "hardware_connected s \<Longrightarrow> tx_stream s \<Longrightarrow> send_throws c \<Longrightarrow>
   cycle a c s =
     Inl (Uhd_exception, (generate a c s)\<lparr>calls := calls s @ [Send (buff (generate a c s)) (md s)]\<rparr>)"
  by (simp add: cycle_def transmit_def and_then_def driver_def)

lemma cycle_null:
  "hardware_connected s \<Longrightarrow> \<not> tx_stream s \<Longrightarrow>
   cycle a c s = Inl (Null_dereference, generate a c s)"
  by (simp add: cycle_def transmit_def and_then_def)

lemma publish_fields [simp]:
  "hardware_connected (publish c s) = hardware_connected s"
  "tx_stream (publish c s) = tx_stream s"
  "device_args (publish c s) = device_args s"
  "md (publish c s) = md s"
  "calls (publish c s) = calls s"
  "buff (publish c s) = buff s"
  "phase (publish c s) = phase s"
  "shared_buffer (publish c s) = (if try_lock c then buff s else shared_buffer s)"
  by (simp_all add: publish_def)

lemma cycle_returns:
  assumes "cycle a c s = Inr s1"
  shows "phase s1 = phase_at a (increment a) (phase s) buff_size"
    and "buff s1 = buff (generate a c s)"
    and "shared_buffer s1 = (if try_lock c then buff (generate a c s) else shared_buffer s)"
    and "hardware_connected s1 = hardware_connected s"
    and "tx_stream s1 = tx_stream s"
    and "device_args s1 = device_args s"
proof -
  consider (sim) "\<not> hardware_connected s"
    | (hw) "hardware_connected s" "tx_stream s" "\<not> send_throws c"
    | (thr) "hardware_connected s" "tx_stream s" "send_throws c"
    | (null) "hardware_connected s" "\<not> tx_stream s"
    by blast
  then have "phase s1 = phase_at a (increment a) (phase s) buff_size \<and>
    buff s1 = buff (generate a c s) \<and>
    shared_buffer s1 = (if try_lock c then buff (generate a c s) else shared_buffer s) \<and>
    hardware_connected s1 = hardware_connected s \<and> tx_stream s1 = tx_stream s \<and>
    device_args s1 = device_args s"
  proof cases
    case sim
    with assms have "s1 = publish c ((generate a c s)\<lparr>calls := calls s @ [Usleep 2000]\<rparr>)"
      by (simp add: cycle_simulated)
    then show ?thesis by simp
  next
    case hw
    with assms have "s1 = publish c ((generate a c s)
            \<lparr>calls := calls s @ [Send (buff (generate a c s)) (md s)],
             md := (md s)\<lparr>start_of_burst := False\<rparr>\<rparr>)"
      by (simp add: cycle_sent)
    then show ?thesis by simp
  next
    case thr
    with assms show ?thesis by (simp add: cycle_thrown)
  next
    case null
    with assms show ?thesis by (simp add: cycle_null)
  qed
  then show "phase s1 = phase_at a (increment a) (phase s) buff_size"
    and "buff s1 = buff (generate a c s)"
    and "shared_buffer s1 = (if try_lock c then buff (generate a c s) else shared_buffer s)"
    and "hardware_connected s1 = hardware_connected s"
    and "tx_stream s1 = tx_stream s"
    and "device_args s1 = device_args s"
    by simp_all
qed

subsection \<open>Facts about the loop\<close>

lemma while_running_append:
  "while_running a (xs @ ys) s =
     (case while_running a xs s of Inl e \<Rightarrow> Inl e | Inr s1 \<Rightarrow> while_running a ys s1)"
  by (induction xs arbitrary: s) (auto split: sum.splits)

lemma while_running_returns:
  "while_running a cs s = Inr s1 \<Longrightarrow>
   phase s1 = phase_at a (increment a) (phase s) (length cs * buff_size) \<and>
   length (buff s1) = length (buff s) \<and>
   hardware_connected s1 = hardware_connected s \<and>
   tx_stream s1 = tx_stream s \<and>
   device_args s1 = device_args s"
proof (induction cs arbitrary: s)
  case Nil
  then show ?case by simp
next
  case (Cons c cs)
  from Cons.prems obtain s2 where c: "cycle a c s = Inr s2" and r: "while_running a cs s2 = Inr s1"
    by (auto split: sum.splits)
  have "phase_at a (increment a) (phase s2) (length cs * buff_size) =
        phase_at a (increment a) (phase s) (buff_size + length cs * buff_size)"
    by (simp only: cycle_returns(1) [OF c] phase_at_add)
  with Cons.IH [OF r] cycle_returns [OF c] show ?case by simp
qed

lemma while_running_last:
  assumes "while_running a (cs @ [c]) s = Inr s1" and "i < buff_size" and "buff_size \<le> length (buff s)"
  shows "buff s1 ! i =
           waveform_sample a (waveform_type c) (amplitude c)
             (phase_at a (increment a) (phase s) (length cs * buff_size + i))"
    and "shared_buffer s1 = (if try_lock c then buff s1 else shared_buffer (final_state (while_running a cs s)))"
proof -
  from assms(1) obtain s2 where r: "while_running a cs s = Inr s2" and c: "cycle a c s2 = Inr s1"
    by (auto simp: while_running_append split: sum.splits)
  have len: "buff_size \<le> length (buff s2)"
    using while_running_returns [OF r] assms(3) by simp
  have ph: "phase s2 = phase_at a (increment a) (phase s) (length cs * buff_size)"
    using while_running_returns [OF r] by simp
  show "buff s1 ! i =
           waveform_sample a (waveform_type c) (amplitude c)
             (phase_at a (increment a) (phase s) (length cs * buff_size + i))"
    by (simp only: cycle_returns(2) [OF c] generate_nth [OF assms(2) len] ph phase_at_add)
  show "shared_buffer s1 = (if try_lock c then buff s1 else shared_buffer (final_state (while_running a cs s)))"
    using cycle_returns(2,3) [OF c] r by (simp add: final_state_def)
qed

lemma while_running_simulated:
  "\<not> hardware_connected s \<Longrightarrow>
   \<exists>s1. while_running a cs s = Inr s1 \<and>
        calls s1 = calls s @ replicate (length cs) (Usleep 2000)"
proof (induction cs arbitrary: s)
  case Nil
  then show ?case by simp
next
  case (Cons c cs)
  let ?s2 = "publish c ((generate a c s)\<lparr>calls := calls s @ [Usleep 2000]\<rparr>)"
  have c: "cycle a c s = Inr ?s2" using Cons.prems by (rule cycle_simulated)
  have "\<not> hardware_connected ?s2" using Cons.prems by simp
  from Cons.IH [OF this] obtain s1 where
    "while_running a cs ?s2 = Inr s1" "calls s1 = calls ?s2 @ replicate (length cs) (Usleep 2000)"
    by blast
  with c show ?case by (simp add: replicate_app_Cons_same)
qed

subsection \<open>Facts about the connection attempt\<close>

lemma connection_skipped:
  "device_args w = [] \<Longrightarrow> connection_attempt a env (enter a w) = enter a w"
  by (simp add: connection_attempt_def try_connect_def enter_def)

lemma connection_made:
  "device_args w \<noteq> [] \<Longrightarrow> connect_throws env = None \<Longrightarrow>
   connection_attempt a env (enter a w) =
     (enter a w)\<lparr>calls := [Make (device_args w), Set_tx_rate (lit a 1000000),
                          Set_tx_freq (frequency (regs_at_connect env)),
                          Set_tx_gain (gain (regs_at_connect env)),
                          Get_tx_stream ''fc32''],
               tx_stream := True,
               md := \<lparr>start_of_burst = True, end_of_burst = False\<rparr>,
               hardware_connected := True\<rparr>"
  by (simp add: connection_attempt_def try_connect_def enter_def and_then_def driver_def)

lemma connection_failed:
  assumes "device_args w \<noteq> []" and "connect_throws env = Some st"
  shows "\<not> hardware_connected (connection_attempt a env (enter a w))"
    and "sends (calls (connection_attempt a env (enter a w))) = []"
    and "phase (connection_attempt a env (enter a w)) = lit a 0"
    and "buff (connection_attempt a env (enter a w)) = replicate buff_size (f_zero a, f_zero a)"
  using assms
  by (cases st; simp add: connection_attempt_def try_connect_def enter_def and_then_def driver_def)+

subsection \<open>Facts about the calls of a run\<close>

lemma sends_append: "sends (xs @ ys) = sends xs @ sends ys"
  by (induction xs rule: sends.induct) simp_all

lemma sends_usleep: "sends (replicate n (Usleep k)) = []"
  by (induction n) simp_all

lemma tunings_append: "tunings (xs @ ys) = tunings xs @ tunings ys"
  by (induction xs rule: tunings.induct) simp_all

lemma frames_length [simp]: "length (frames m n) = n"
  by (induction n arbitrary: m) simp_all

lemma frames_snoc:
  "frames m n @ [(buff_size, if n = 0 then m else m\<lparr>start_of_burst := False\<rparr>)] = frames m (Suc n)"
proof (induction n arbitrary: m)
  case 0
  show ?case by simp
next
  case (Suc n)
  from Suc [of "m\<lparr>start_of_burst := False\<rparr>"] show ?case
    by (cases "n = 0") simp_all
qed

lemma frames_nth:
  "k < n \<Longrightarrow> frames m n ! k = (buff_size, if k = 0 then m else m\<lparr>start_of_burst := False\<rparr>)"
proof (induction n arbitrary: m k)
  case 0
  then show ?case by simp
next
  case (Suc n)
  show ?case
  proof (cases k)
    case 0
    then show ?thesis by simp
  next
    case (Suc j)
    with Suc.prems have "j < n" by simp
    from Suc.IH [OF this, of "m\<lparr>start_of_burst := False\<rparr>"] Suc show ?thesis by simp
  qed
qed

lemma while_running_sent:
  assumes "hardware_connected s" and "tx_stream s" and "length (buff s) = buff_size"
    and "\<forall>c\<in>set cs. \<not> send_throws c"
  shows "\<exists>s1. while_running a cs s = Inr s1 \<and>
            sends (calls s1) = sends (calls s) @ frames (md s) (length cs) \<and>
            md s1 = (if cs = [] then md s else (md s)\<lparr>start_of_burst := False\<rparr>)"
  using assms
proof (induction cs arbitrary: s)
  case Nil
  then show ?case by simp
next
  case (Cons c cs)
  let ?s2 = "publish c ((generate a c s)
            \<lparr>calls := calls s @ [Send (buff (generate a c s)) (md s)],
             md := (md s)\<lparr>start_of_burst := False\<rparr>\<rparr>)"
  have c: "cycle a c s = Inr ?s2"
    using Cons.prems by (simp add: cycle_sent)
  have "hardware_connected ?s2" "tx_stream ?s2" "length (buff ?s2) = buff_size"
    "\<forall>c\<in>set cs. \<not> send_throws c"
    using Cons.prems by simp_all
  from Cons.IH [OF this] obtain s1 where s1: "while_running a cs ?s2 = Inr s1"
    "sends (calls s1) = sends (calls ?s2) @ frames (md ?s2) (length cs)"
    "md s1 = (if cs = [] then md ?s2 else (md ?s2)\<lparr>start_of_burst := False\<rparr>)"
    by blast
  have "sends (calls ?s2) = sends (calls s) @ [(buff_size, md s)]"
    using Cons.prems(3) by (simp add: sends_append)
  with s1 c show ?case by simp
qed

lemma while_running_thrown:
  assumes "hardware_connected s" and "tx_stream s" and "length (buff s) = buff_size"
    and "\<forall>x\<in>set pre. \<not> send_throws x" and "send_throws c"
  shows "\<exists>s1. while_running a (pre @ c # post) s = Inl (Uhd_exception, s1) \<and>
            sends (calls s1) = sends (calls s) @ frames (md s) (Suc (length pre)) \<and>
            hardware_connected s1 \<and> tunings (calls s1) = tunings (calls (final_state (while_running a pre s)))"
proof -
  from while_running_sent [OF assms(1-4)] obtain s2 where s2: "while_running a pre s = Inr s2"
    "sends (calls s2) = sends (calls s) @ frames (md s) (length pre)"
    "md s2 = (if pre = [] then md s else (md s)\<lparr>start_of_burst := False\<rparr>)"
    by blast
  have h: "hardware_connected s2" "tx_stream s2" "length (buff s2) = buff_size"
    using while_running_returns [OF s2(1)] assms(1-3) by simp_all
  let ?s1 = "(generate a c s2)\<lparr>calls := calls s2 @ [Send (buff (generate a c s2)) (md s2)]\<rparr>"
  have c: "cycle a c s2 = Inl (Uhd_exception, ?s1)"
    using h assms(5) by (simp add: cycle_thrown)
  have w: "while_running a (pre @ c # post) s = Inl (Uhd_exception, ?s1)"
    by (simp add: while_running_append s2(1) c)
  have "sends (calls ?s1) = (sends (calls s) @ frames (md s) (length pre)) @ [(buff_size, md s2)]"
    using h(3) s2(2) by (simp add: sends_append)
  also have "\<dots> = sends (calls s) @ frames (md s) (Suc (length pre))"
    using frames_snoc [of "md s" "length pre"] s2(3) by simp
  finally have "sends (calls ?s1) = sends (calls s) @ frames (md s) (Suc (length pre))" .
  moreover have "hardware_connected ?s1" using h by simp
  moreover have "tunings (calls ?s1) = tunings (calls (final_state (while_running a pre s)))"
    by (simp add: tunings_append s2(1) final_state_def)
  ultimately show ?thesis using w by blast
qed

lemma cycle_tunings:
  "tunings (calls (final_state (cycle a c s))) = tunings (calls s)"
proof -
  consider (sim) "\<not> hardware_connected s"
    | (hw) "hardware_connected s" "tx_stream s" "\<not> send_throws c"
    | (thr) "hardware_connected s" "tx_stream s" "send_throws c"
    | (null) "hardware_connected s" "\<not> tx_stream s"
    by blast
  then show ?thesis
  proof cases
    case sim
    then show ?thesis by (simp add: cycle_simulated final_state_def tunings_append)
  next
    case hw
    then show ?thesis by (simp add: cycle_sent final_state_def tunings_append)
  next
    case thr
    then show ?thesis by (simp add: cycle_thrown final_state_def tunings_append)
  next
    case null
    then show ?thesis by (simp add: cycle_null final_state_def)
  qed
qed

lemma while_running_tunings:
  "tunings (calls (final_state (while_running a cs s))) = tunings (calls s)"
proof (induction cs arbitrary: s)
  case Nil
  then show ?case by (simp add: final_state_def)
next
  case (Cons c cs)
  show ?case
  proof (cases "cycle a c s")
    case (Inl e)
    with cycle_tunings [of a c s] show ?thesis by simp
  next
    case (Inr s2)
    with cycle_tunings [of a c s] Cons.IH [of s2] show ?thesis by (simp add: final_state_def)
  qed
qed

lemma end_burst_streaming:
  "hardware_connected s \<Longrightarrow> tx_stream s \<Longrightarrow>
   end_burst env s =
     driver (last_send_throws env) (Send [] ((md s)\<lparr>end_of_burst := True\<rparr>))
       (s\<lparr>md := (md s)\<lparr>end_of_burst := True\<rparr>\<rparr>)"
  by (simp add: end_burst_def Let_def)

lemma end_burst_final:
  "final_state (end_burst env s) =
     (if hardware_connected s then
        (if tx_stream s then
           s\<lparr>md := (md s)\<lparr>end_of_burst := True\<rparr>,
             calls := calls s @ [Send [] ((md s)\<lparr>end_of_burst := True\<rparr>)]\<rparr>
         else s\<lparr>md := (md s)\<lparr>end_of_burst := True\<rparr>\<rparr>)
      else s)"
  by (simp add: end_burst_def Let_def driver_def final_state_def)

lemma connection_locals:
  "phase (connection_attempt a env (enter a w)) = lit a 0 \<and>
   buff (connection_attempt a env (enter a w)) = replicate buff_size (f_zero a, f_zero a) \<and>
   shared_buffer (connection_attempt a env (enter a w)) = shared_buffer w"
proof (cases "device_args w = []")
  case True
  then show ?thesis by (simp add: connection_skipped) (simp add: enter_def)
next
  case False
  show ?thesis
  proof (cases "connect_throws env")
    case None
    with False show ?thesis by (simp add: connection_made) (simp add: enter_def)
  next
    case (Some st)
    with False show ?thesis
      by (cases st; simp add: connection_attempt_def try_connect_def enter_def and_then_def driver_def)
  qed
qed

subsection \<open>Facts about a whole run\<close>

lemma run_loop_thrown:
  "while_running a (cycles env) (connection_attempt a env (enter a w)) = Inl x \<Longrightarrow> run a w env = Inl x"
  by (simp add: run_def and_then_def)

lemma run_loop_returned:
  "while_running a (cycles env) (connection_attempt a env (enter a w)) = Inr s1 \<Longrightarrow>
   run a w env = end_burst env s1"
  by (simp add: run_def and_then_def)

lemma end_burst_locals:
  "buff (final_state (end_burst env s)) = buff s \<and>
   phase (final_state (end_burst env s)) = phase s \<and>
   shared_buffer (final_state (end_burst env s)) = shared_buffer s \<and>
   hardware_connected (final_state (end_burst env s)) = hardware_connected s \<and>
   tunings (calls (final_state (end_burst env s))) = tunings (calls s)"
  by (simp add: end_burst_final tunings_append)

lemma run_tunings:
  "tunings (calls (final_state (run a w env))) = tunings (calls (connection_attempt a env (enter a w)))"
proof (cases "while_running a (cycles env) (connection_attempt a env (enter a w))")
  case (Inl x)
  with while_running_tunings [of a "cycles env" "connection_attempt a env (enter a w)"]
  show ?thesis by (simp add: run_loop_thrown)
next
  case (Inr s1)
  with while_running_tunings [of a "cycles env" "connection_attempt a env (enter a w)"]
  show ?thesis by (simp add: run_loop_returned end_burst_locals) (simp add: final_state_def)
qed

lemma run_returned:
  assumes "escaped (run a w env) = None"
  shows "\<exists>s1. while_running a (cycles env) (connection_attempt a env (enter a w)) = Inr s1 \<and>
              buff (final_state (run a w env)) = buff s1 \<and>
              shared_buffer (final_state (run a w env)) = shared_buffer s1"
proof (cases "while_running a (cycles env) (connection_attempt a env (enter a w))")
  case (Inl x)
  with assms show ?thesis by (cases x) (simp add: run_loop_thrown escaped_def)
next
  case (Inr s1)
  then show ?thesis by (simp add: run_loop_returned end_burst_locals)
qed

lemma run_last_buffer:
  assumes "escaped (run a w env) = None" and "cycles env = cs @ [c]" and "i < buff_size"
  shows "buff (final_state (run a w env)) ! i =
           waveform_sample a (waveform_type c) (amplitude c)
             (phase_at a (increment a) (lit a 0) (length cs * buff_size + i))"
    and "try_lock c \<Longrightarrow> shared_buffer (final_state (run a w env)) = buff (final_state (run a w env))"
proof -
  let ?s0 = "connection_attempt a env (enter a w)"
  from run_returned [OF assms(1)] obtain s1 where s1:
    "while_running a (cs @ [c]) ?s0 = Inr s1"
    "buff (final_state (run a w env)) = buff s1"
    "shared_buffer (final_state (run a w env)) = shared_buffer s1"
    using assms(2) by auto
  have len: "buff_size \<le> length (buff ?s0)" by (simp add: connection_locals)
  show "buff (final_state (run a w env)) ! i =
           waveform_sample a (waveform_type c) (amplitude c)
             (phase_at a (increment a) (lit a 0) (length cs * buff_size + i))"
    using while_running_last(1) [OF s1(1) assms(3) len] s1(2) by (simp add: connection_locals)
  show "try_lock c \<Longrightarrow> shared_buffer (final_state (run a w env)) = buff (final_state (run a w env))"
    using while_running_last(2) [OF s1(1) assms(3) len] s1(2,3) by simp
qed

lemma run_simulated:
  assumes "\<not> hardware_connected (connection_attempt a env (enter a w))"
  shows "escaped (run a w env) = None"
    and "\<not> hardware_connected (final_state (run a w env))"
    and "calls (final_state (run a w env)) =
           calls (connection_attempt a env (enter a w)) @ replicate (length (cycles env)) (Usleep 2000)"
proof -
  let ?s0 = "connection_attempt a env (enter a w)"
  from while_running_simulated [OF assms, where a = a and cs = "cycles env"] obtain s1 where s1:
    "while_running a (cycles env) ?s0 = Inr s1"
    "calls s1 = calls ?s0 @ replicate (length (cycles env)) (Usleep 2000)"
    by blast
  have h: "\<not> hardware_connected s1"
    using while_running_returns [OF s1(1)] assms by simp
  then have e: "run a w env = Inr s1"
    using s1(1) by (simp add: run_loop_returned end_burst_def)
  show "escaped (run a w env) = None" by (simp add: e escaped_def)
  show "\<not> hardware_connected (final_state (run a w env))" using h by (simp add: e final_state_def)
  show "calls (final_state (run a w env)) =
           calls (connection_attempt a env (enter a w)) @ replicate (length (cycles env)) (Usleep 2000)"
    using s1(2) by (simp add: e final_state_def)
qed

lemma connection_made_facts:
  assumes "device_args w \<noteq> []" and "connect_throws env = None"
  shows "hardware_connected (connection_attempt a env (enter a w))"
    and "tx_stream (connection_attempt a env (enter a w))"
    and "md (connection_attempt a env (enter a w)) = \<lparr>start_of_burst = True, end_of_burst = False\<rparr>"
    and "sends (calls (connection_attempt a env (enter a w))) = []"
    and "tunings (calls (connection_attempt a env (enter a w))) =
           [Set_tx_freq (frequency (regs_at_connect env)), Set_tx_gain (gain (regs_at_connect env))]"
    and "length (buff (connection_attempt a env (enter a w))) = buff_size"
  using assms by (simp_all add: connection_made) (simp add: enter_def)

lemma run_streamed:
  assumes "device_args w \<noteq> []" and "connect_throws env = None"
    and "\<forall>c\<in>set (cycles env). \<not> send_throws c"
  shows "escaped (run a w env) = (if last_send_throws env then Some Uhd_exception else None)"
    and "sends (calls (final_state (run a w env))) =
           frames \<lparr>start_of_burst = True, end_of_burst = False\<rparr> (length (cycles env)) @
           [(0, \<lparr>start_of_burst = (cycles env = []), end_of_burst = True\<rparr>)]"
    and "hardware_connected (final_state (run a w env))"
proof -
  let ?s0 = "connection_attempt a env (enter a w)"
  note f = connection_made_facts [OF assms(1,2)]
  from while_running_sent [OF f(1,2,6) assms(3)] obtain s1 where s1:
    "while_running a (cycles env) ?s0 = Inr s1"
    "sends (calls s1) = sends (calls ?s0) @ frames (md ?s0) (length (cycles env))"
    "md s1 = (if cycles env = [] then md ?s0 else (md ?s0)\<lparr>start_of_burst := False\<rparr>)"
    by blast
  have h: "hardware_connected s1" "tx_stream s1"
    using while_running_returns [OF s1(1)] f(1,2) by simp_all
  have e: "run a w env = driver (last_send_throws env) (Send [] ((md s1)\<lparr>end_of_burst := True\<rparr>))
       (s1\<lparr>md := (md s1)\<lparr>end_of_burst := True\<rparr>\<rparr>)"
    using s1(1) h by (simp add: run_loop_returned end_burst_streaming)
  show "escaped (run a w env) = (if last_send_throws env then Some Uhd_exception else None)"
    by (simp add: e driver_def Let_def escaped_def)
  show "sends (calls (final_state (run a w env))) =
           frames \<lparr>start_of_burst = True, end_of_burst = False\<rparr> (length (cycles env)) @
           [(0, \<lparr>start_of_burst = (cycles env = []), end_of_burst = True\<rparr>)]"
    using s1(2,3) f(3,4) by (simp add: e driver_def Let_def final_state_def sends_append)
  show "hardware_connected (final_state (run a w env))"
    using h by (simp add: e driver_def Let_def final_state_def)
qed

lemma run_send_thrown:
  assumes "device_args w \<noteq> []" and "connect_throws env = None"
    and "cycles env = pre @ c # post" and "\<forall>x\<in>set pre. \<not> send_throws x" and "send_throws c"
  shows "escaped (run a w env) = Some Uhd_exception"
    and "sends (calls (final_state (run a w env))) =
           frames \<lparr>start_of_burst = True, end_of_burst = False\<rparr> (Suc (length pre))"
    and "hardware_connected (final_state (run a w env))"
proof -
  let ?s0 = "connection_attempt a env (enter a w)"
  note f = connection_made_facts [OF assms(1,2)]
  from while_running_thrown [OF f(1,2,6) assms(4,5), where a = a and post = post] obtain s1 where s1:
    "while_running a (pre @ c # post) ?s0 = Inl (Uhd_exception, s1)"
    "sends (calls s1) = sends (calls ?s0) @ frames (md ?s0) (Suc (length pre))"
    "hardware_connected s1"
    by blast
  have e: "run a w env = Inl (Uhd_exception, s1)"
    using s1(1) assms(3) by (simp add: run_loop_thrown)
  show "escaped (run a w env) = Some Uhd_exception" by (simp add: e escaped_def)
  show "sends (calls (final_state (run a w env))) =
           frames \<lparr>start_of_burst = True, end_of_burst = False\<rparr> (Suc (length pre))"
    using s1(2) f(3,4) by (simp add: e final_state_def)
  show "hardware_connected (final_state (run a w env))"
    using s1(3) by (simp add: e final_state_def)
qed

lemma cycle_no_stream:
  "\<not> tx_stream s \<Longrightarrow>
   sends (calls (final_state (cycle a c s))) = sends (calls s) \<and>
   \<not> tx_stream (final_state (cycle a c s))"
  by (cases "hardware_connected s")
     (simp_all add: cycle_null cycle_simulated final_state_def sends_append)

lemma while_running_no_stream:
  "\<not> tx_stream s \<Longrightarrow>
   sends (calls (final_state (while_running a cs s))) = sends (calls s) \<and>
   \<not> tx_stream (final_state (while_running a cs s))"
proof (induction cs arbitrary: s)
  case Nil
  then show ?case by (simp add: final_state_def)
next
  case (Cons c cs)
  show ?case
  proof (cases "cycle a c s")
    case (Inl e)
    with cycle_no_stream [OF Cons.prems, where a = a and c = c] show ?thesis by simp
  next
    case (Inr s2)
    with cycle_no_stream [OF Cons.prems, where a = a and c = c] have "\<not> tx_stream s2" "sends (calls s2) = sends (calls s)"
      by (simp_all add: final_state_def)
    with Cons.IH [of s2] Inr show ?thesis by simp
  qed
qed

lemma connection_unmade:
  assumes "device_args w = [] \<or> connect_throws env \<noteq> None"
  shows "\<not> tx_stream (connection_attempt a env (enter a w)) \<and>
         sends (calls (connection_attempt a env (enter a w))) = []"
proof (cases "device_args w = []")
  case True
  then show ?thesis by (simp add: connection_skipped) (simp add: enter_def)
next
  case False
  with assms obtain st where "connect_throws env = Some st" by auto
  with False show ?thesis
    by (cases st; simp add: connection_attempt_def try_connect_def enter_def and_then_def driver_def)
qed

lemma run_no_stream:
  assumes "device_args w = [] \<or> connect_throws env \<noteq> None"
  shows "sends (calls (final_state (run a w env))) = []"
proof -
  let ?s0 = "connection_attempt a env (enter a w)"
  note u = connection_unmade [OF assms]
  from u have n: "sends (calls (final_state (while_running a (cycles env) ?s0))) = []"
    "\<not> tx_stream (final_state (while_running a (cycles env) ?s0))"
    using while_running_no_stream [where s = ?s0 and a = a and cs = "cycles env"] by simp_all
  show ?thesis
  proof (cases "while_running a (cycles env) ?s0")
    case (Inl x)
    with n show ?thesis by (simp add: run_loop_thrown)
  next
    case (Inr s1)
    with n have "\<not> tx_stream s1" "sends (calls s1) = []" by (simp_all add: final_state_def)
    with Inr show ?thesis by (simp add: run_loop_returned end_burst_final)
  qed
qed

text \<open>
  The flag \<^verbatim>\<open>hardware_connected\<close> is a member and \<^verbatim>\<open>run\<close> does not reset it when
  \<^verbatim>\<open>device_args\<close> is empty: a worker that was connected in its last run and is started
  again without a device dereferences the \<^verbatim>\<open>tx_stream\<close> it never assigned.
\<close>

lemma restart_with_stale_flag:
  assumes "hardware_connected w" and "device_args w = []"
  shows "escaped (run a w env) = Some Null_dereference"
proof -
  let ?s0 = "connection_attempt a env (enter a w)"
  have s0: "?s0 = enter a w" using assms(2) by (rule connection_skipped)
  have h: "hardware_connected ?s0" "\<not> tx_stream ?s0"
    using assms(1) by (simp_all add: s0) (simp_all add: enter_def)
  show ?thesis
  proof (cases "cycles env")
    case Nil
    then have "run a w env = end_burst env ?s0" by (simp add: run_def and_then_def)
    with h show ?thesis by (simp add: end_burst_def Let_def escaped_def)
  next
    case (Cons c cs)
    then have "while_running a (cycles env) ?s0 = Inl (Null_dereference, generate a c ?s0)"
      using h by (simp add: cycle_null)
    then show ?thesis by (simp add: run_loop_thrown escaped_def)
  qed
qed

lemma frames_map:
  "frames \<lparr>start_of_burst = True, end_of_burst = False\<rparr> n =
   map (\<lambda>k. (buff_size, \<lparr>start_of_burst = (k = 0), end_of_burst = False\<rparr>)) [0..<n]"
  by (rule nth_equalityI) (simp_all add: frames_nth)

lemma session_fields [simp]:
  "connect_throws (session st cs) = st"
  "regs_at_connect (session st cs) = default_registers"
  "cycles (session st cs) = cs"
  "last_send_throws (session st cs) = False"
  by (simp_all add: session_def)

lemma pass_fields [simp]:
  "frequency (pass amp type throws lock) = 915000000"
  "gain (pass amp type throws lock) = 40"
  "amplitude (pass amp type throws lock) = amp"
  "waveform_type (pass amp type throws lock) = type"
  "send_throws (pass amp type throws lock) = throws"
  "try_lock (pass amp type throws lock) = lock"
  by (simp_all add: pass_def)

lemma fresh_worker_fields [simp]:
  "hardware_connected (fresh_worker args) = False"
  "shared_buffer (fresh_worker args) = []"
  "device_args (fresh_worker args) = args"
  by (simp_all add: fresh_worker_def)



section \<open>The waveform synthesizer\<close>




subsection \<open>Facts about the narrowing to float\<close>

lemma narrowing_fields [simp]:
  "lit narrowing x = x"
  "m_pi narrowing = pi"
  "d_add narrowing x y = x + y"
  "d_sub narrowing x y = x - y"
  "d_mul narrowing x y = x * y"
  "d_div narrowing x y = x / y"
  "d_gt narrowing x y = (y < x)"
  "d_cos narrowing x = cos x"
  "d_sin narrowing x = sin x"
  "narrow narrowing x = to_float x"
  "f_zero narrowing = 0"
  by (simp_all add: narrowing_def exact_def)

lemma normalise_numeral:
  "normalise (numeral k) y e =
     (if 16777216 \<le> y then normalise (pred_numeral k) (y / 2) (e + 1)
      else if y < 8388608 then normalise (pred_numeral k) (2 * y) (e - 1)
      else (y, e))"
  by (simp add: numeral_eq_Suc)

lemma to_float_tenth:
  "to_float (3602879701896397 / 36028797018963968) = 13421773 / 134217728"
  by (simp add: to_float_def normalise_numeral round_to_even_def)

lemma to_float_neg_tenth:
  "to_float (- (3602879701896397 / 36028797018963968)) = - (13421773 / 134217728)"
  by (simp add: to_float_def normalise_numeral round_to_even_def)

lemma to_float_half: "to_float (1 / 2) = 1 / 2"
  by (simp add: to_float_def normalise_numeral round_to_even_def)

lemma to_float_neg_half: "to_float (- (1 / 2)) = - (1 / 2)"
  by (simp add: to_float_def normalise_numeral round_to_even_def)

lemma first_square_sample_narrowed:
  "fst (fill_buffer narrowing buff_size (increment narrowing) amp SQUARE
          (replicate buff_size (0, 0), 0)) ! 0 = (to_float amp, to_float (- amp))"
proof -
  have z: "0 < buff_size" by (simp add: buff_size_def)
  have l: "buff_size \<le> length (replicate buff_size (0::real, 0::real))" by simp
  show ?thesis
    using fill_buffer_nth_done [OF z l, of narrowing "increment narrowing" amp SQUARE 0]
    by (simp add: waveform_sample_def SQUARE_def)
qed

lemma half_turn: "phase_at exact (increment exact) 0 50 = pi"
proof -
  have "phase_at exact (pi / 50) 0 (Suc 49) = pi * real (49 mod 100 + 1) / 50"
    by (rule phase_at_closed)
  then show ?thesis by (simp add: increment_eq)
qed

section \<open>The square wave\<close>

text \<open>
  C5, as the claim states it, fails: line 92 narrows each product to \<^verbatim>\<open>float\<close>. With
  the amplitude register at the double nearest to 0.1 and the square wave selected, the
  real part of sample 0 of the first buffer is the float 13421773 / 2^27 (about
  0.1000000015), which is neither the amplitude nor its negation.
\<close>

theorem square_narrowed_counterexample:
  "fst (fst (fill_buffer narrowing buff_size (increment narrowing)
               (3602879701896397 / 36028797018963968) SQUARE
               (replicate buff_size (0, 0), 0)) ! 0) = 13421773 / 134217728 \<and>
   fst (fst (fill_buffer narrowing buff_size (increment narrowing)
               (3602879701896397 / 36028797018963968) SQUARE
               (replicate buff_size (0, 0), 0)) ! 0)
     \<notin> {- (3602879701896397 / 36028797018963968), 3602879701896397 / 36028797018963968}"
  by (simp add: first_square_sample_narrowed to_float_tenth)

text \<open>
  C5, amended. In every arithmetic, with the selector at \<^verbatim>\<open>SQUARE\<close>, sample \<open>i\<close> is the
  pair of the narrowed products of the amplitude with the sign of the cosine and with the
  sign of the sine of the phase at sample \<open>i\<close>, where the sign of a value is \<^verbatim>\<open>1.0\<close> when
  the value is greater than zero and \<^verbatim>\<open>-1.0\<close> otherwise (the fixed policy of lines
  89-90). Each part of each sample is therefore one of two floats: the narrowed product
  of the amplitude with \<^verbatim>\<open>-1.0\<close> or with \<^verbatim>\<open>1.0\<close>.
\<close>

theorem square_samples_two_valued:
  assumes "i < n" and "n \<le> length b"
  shows "fst (fill_buffer a n inc amp SQUARE (b, ph)) ! i =
           (narrow a (d_mul a (if d_gt a (d_cos a (phase_at a inc ph i)) (lit a 0)
                               then lit a 1 else lit a (- 1)) amp),
            narrow a (d_mul a (if d_gt a (d_sin a (phase_at a inc ph i)) (lit a 0)
                               then lit a 1 else lit a (- 1)) amp)) \<and>
         fst (fst (fill_buffer a n inc amp SQUARE (b, ph)) ! i)
           \<in> {narrow a (d_mul a (lit a (- 1)) amp), narrow a (d_mul a (lit a 1) amp)} \<and>
         snd (fst (fill_buffer a n inc amp SQUARE (b, ph)) ! i)
           \<in> {narrow a (d_mul a (lit a (- 1)) amp), narrow a (d_mul a (lit a 1) amp)}"
  using fill_buffer_nth_done [OF assms, of a inc amp SQUARE ph]
  by (simp add: waveform_sample_def SQUARE_def)

theorem square_samples_two_valued_witness:
  "fst (fill_buffer narrowing buff_size (increment narrowing) (1 / 2) SQUARE
          (replicate buff_size (0, 0), 0)) ! 0 = (1 / 2, - (1 / 2))"
proof -
  have z: "0 < buff_size" by (simp add: buff_size_def)
  have l: "buff_size \<le> length (replicate buff_size (0::real, 0::real))" by simp
  show ?thesis
    using square_samples_two_valued [OF z l, of narrowing "increment narrowing" "1 / 2" 0]
    by (simp add: to_float_half to_float_neg_half)
qed

text \<open>
  C10, as the claim states it, fails in the same way. With the amplitude register at
  the double nearest to 0.1 and the square wave selected, the sine of the phase of
  sample 0 of the first buffer is exactly 0 and the imaginary part is the float
  -13421773 / 2^27, which is not the negated amplitude.
\<close>

theorem square_zero_counterexample:
  "d_sin narrowing (phase_at narrowing (increment narrowing) 0 0) = 0 \<and>
   snd (fst (fill_buffer narrowing buff_size (increment narrowing)
               (3602879701896397 / 36028797018963968) SQUARE
               (replicate buff_size (0, 0), 0)) ! 0) = - (13421773 / 134217728) \<and>
   snd (fst (fill_buffer narrowing buff_size (increment narrowing)
               (3602879701896397 / 36028797018963968) SQUARE
               (replicate buff_size (0, 0), 0)) ! 0)
     \<noteq> - (3602879701896397 / 36028797018963968)"
  by (simp add: first_square_sample_narrowed to_float_neg_tenth)

text \<open>
  C10, amended. The comparison of the square wave is strict: in every arithmetic, with
  any selector other than \<^verbatim>\<open>SINE\<close>, at every sample where the cosine (the sine) of the
  phase is not greater than zero, so also where it is zero, the real (the imaginary)
  part is the narrowed product of the amplitude with \<^verbatim>\<open>-1.0\<close>. Zero counts as negative.
\<close>

theorem square_zero_is_negative:
  assumes "i < n" and "n \<le> length b" and "type \<noteq> SINE"
  shows "(\<not> d_gt a (d_cos a (phase_at a inc ph i)) (lit a 0) \<longrightarrow>
            fst (fst (fill_buffer a n inc amp type (b, ph)) ! i) =
              narrow a (d_mul a (lit a (- 1)) amp)) \<and>
         (\<not> d_gt a (d_sin a (phase_at a inc ph i)) (lit a 0) \<longrightarrow>
            snd (fst (fill_buffer a n inc amp type (b, ph)) ! i) =
              narrow a (d_mul a (lit a (- 1)) amp))"
  using fill_buffer_nth_done [OF assms(1,2), of a inc amp type ph] assms(3)
  by (simp add: waveform_sample_def SINE_def)

theorem square_zero_is_negative_witness:
  "sin (phase_at exact (increment exact) 0 0) = 0 \<and>
   snd (fst (fill_buffer exact buff_size (increment exact) (1 / 2) SQUARE
               (replicate buff_size (0, 0), 0)) ! 0) = - (1 / 2) \<and>
   cos (phase_at exact (increment exact) 0 50) = - 1 \<and>
   fst (fst (fill_buffer exact buff_size (increment exact) (1 / 2) SQUARE
               (replicate buff_size (0, 0), 0)) ! 50) = - (1 / 2)"
proof -
  have z: "0 < buff_size" and h: "50 < buff_size" by (simp_all add: buff_size_def)
  have l: "buff_size \<le> length (replicate buff_size (0::real, 0::real))" by simp
  have q: "SQUARE \<noteq> SINE" by (simp add: SQUARE_def SINE_def)
  have s0: "sin (phase_at exact (increment exact) 0 0) = 0" by simp
  have c50: "cos (phase_at exact (increment exact) 0 50) = - 1" by (simp add: half_turn)
  have "snd (fst (fill_buffer exact buff_size (increment exact) (1 / 2) SQUARE
               (replicate buff_size (0, 0), 0)) ! 0) = - (1 / 2)"
    using square_zero_is_negative [OF z l q, of exact "increment exact" 0 "1 / 2"] s0 by simp
  moreover have "fst (fst (fill_buffer exact buff_size (increment exact) (1 / 2) SQUARE
               (replicate buff_size (0, 0), 0)) ! 50) = - (1 / 2)"
    using square_zero_is_negative [OF h l q, of exact "increment exact" 0 "1 / 2"] c50 by simp
  ultimately show ?thesis using s0 c50 by simp
qed



section \<open>Connection failure\<close>

text \<open>
  C1. For every device identifier handed to the driver (a non-empty \<^verbatim>\<open>device_args\<close>),
  if any of the five driver calls of the connection attempt throws, the exception is
  caught: \<^verbatim>\<open>run\<close> returns normally, \<^verbatim>\<open>hardware_connected\<close> is false at the end, nothing
  is ever sent, and every pass of the loop sleeps instead.
\<close>

theorem connect_failure_simulates:
  assumes "device_args w \<noteq> []" and "connect_throws env = Some st"
  shows "escaped (run a w env) = None \<and>
         \<not> hardware_connected (final_state (run a w env)) \<and>
         sends (calls (final_state (run a w env))) = [] \<and>
         calls (final_state (run a w env)) =
           calls (connection_attempt a env (enter a w)) @ replicate (length (cycles env)) (Usleep 2000)"
proof -
  have s: "\<not> hardware_connected (connection_attempt a env (enter a w))"
    using assms by (rule connection_failed(1))
  have "connect_throws env \<noteq> None" using assms(2) by simp
  then have "sends (calls (final_state (run a w env))) = []"
    by (simp add: run_no_stream)
  with run_simulated [OF s] show ?thesis by simp
qed

theorem connect_failure_simulates_witness:
  "escaped (run exact (fresh_worker ''serial=0000'')
                (session (Some Step_make) [pass 1 0 True True, pass 1 0 False True])) = None \<and>
   \<not> hardware_connected (final_state (run exact (fresh_worker ''serial=0000'')
                (session (Some Step_make) [pass 1 0 True True, pass 1 0 False True]))) \<and>
   calls (final_state (run exact (fresh_worker ''serial=0000'')
                (session (Some Step_make) [pass 1 0 True True, pass 1 0 False True]))) =
     [Make ''serial=0000'', Usleep 2000, Usleep 2000]"
proof -
  have a: "device_args (fresh_worker ''serial=0000'') \<noteq> []" by simp
  have b: "connect_throws (session (Some Step_make) [pass 1 0 True True, pass 1 0 False True])
             = Some Step_make" by simp
  have c: "calls (connection_attempt exact (session (Some Step_make) [pass 1 0 True True, pass 1 0 False True])
             (enter exact (fresh_worker ''serial=0000''))) = [Make ''serial=0000'']"
    by (simp add: connection_attempt_def try_connect_def enter_def and_then_def driver_def)
  show ?thesis
    using connect_failure_simulates [OF a b, where a = exact] c by (simp add: numeral_2_eq_2)
qed

section \<open>Send failure\<close>

text \<open>
  C2, as the claim states it, fails: with the device connected, a \<^verbatim>\<open>send\<close> that throws
  in the first pass leaves \<^verbatim>\<open>run\<close> as an exception. The second pass never runs (one
  transmission in all) and \<^verbatim>\<open>hardware_connected\<close> is still true.
\<close>

theorem send_failure_counterexample:
  "escaped (run exact (fresh_worker ''type=b200'')
                (session None [pass 1 0 True True, pass 1 0 False True])) = Some Uhd_exception \<and>
   hardware_connected (final_state (run exact (fresh_worker ''type=b200'')
                (session None [pass 1 0 True True, pass 1 0 False True]))) \<and>
   length (sends (calls (final_state (run exact (fresh_worker ''type=b200'')
                (session None [pass 1 0 True True, pass 1 0 False True]))))) = 1"
proof -
  have a: "device_args (fresh_worker ''type=b200'') \<noteq> []" by simp
  have b: "connect_throws (session None [pass 1 0 True True, pass 1 0 False True]) = None" by simp
  have c: "cycles (session None [pass 1 0 True True, pass 1 0 False True])
             = [] @ pass 1 0 True True # [pass 1 0 False True]" by simp
  have d: "\<forall>x\<in>set []. \<not> send_throws x" by simp
  have e: "send_throws (pass 1 0 True True)" by simp
  show ?thesis
    using run_send_thrown [OF a b c d e, where a = exact] by simp
qed

text \<open>
  C2, amended. After a successful connect, a \<^verbatim>\<open>send\<close> that throws is not caught: the
  exception leaves \<^verbatim>\<open>run\<close> in the pass where it is thrown. No later pass runs,
  \<^verbatim>\<open>hardware_connected\<close> is still true, and no transmission carries the end-of-burst flag.
\<close>

theorem send_failure_escapes:
  assumes "device_args w \<noteq> []" and "connect_throws env = None"
    and "cycles env = pre @ c # post" and "\<forall>x\<in>set pre. \<not> send_throws x" and "send_throws c"
  shows "escaped (run a w env) = Some Uhd_exception \<and>
         hardware_connected (final_state (run a w env)) \<and>
         length (sends (calls (final_state (run a w env)))) = length pre + 1 \<and>
         (\<forall>k < length (sends (calls (final_state (run a w env)))).
            \<not> end_of_burst (snd (sends (calls (final_state (run a w env))) ! k)))"
proof -
  note t = run_send_thrown [OF assms]
  have "\<not> end_of_burst (snd (frames \<lparr>start_of_burst = True, end_of_burst = False\<rparr>
                                 (Suc (length pre)) ! k))"
    if "k < Suc (length pre)" for k
    using frames_nth [OF that, of "\<lparr>start_of_burst = True, end_of_burst = False\<rparr>"]
    by (simp del: frames.simps)
  with t show ?thesis by (simp del: frames.simps)
qed

theorem send_failure_escapes_witness:
  "escaped (run exact (fresh_worker ''type=b200'')
                (session None [pass 1 0 False True, pass 1 0 True True, pass 1 0 False True]))
     = Some Uhd_exception \<and>
   length (sends (calls (final_state (run exact (fresh_worker ''type=b200'')
                (session None [pass 1 0 False True, pass 1 0 True True, pass 1 0 False True]))))) = 2"
proof -
  have a: "device_args (fresh_worker ''type=b200'') \<noteq> []" by simp
  have b: "connect_throws (session None [pass 1 0 False True, pass 1 0 True True, pass 1 0 False True])
             = None" by simp
  have c: "cycles (session None [pass 1 0 False True, pass 1 0 True True, pass 1 0 False True])
             = [pass 1 0 False True] @ pass 1 0 True True # [pass 1 0 False True]" by simp
  have d: "\<forall>x\<in>set [pass 1 0 False True]. \<not> send_throws x" by simp
  have e: "send_throws (pass 1 0 True True)" by simp
  show ?thesis
    using send_failure_escapes [OF a b c d e, where a = exact] by simp
qed

section \<open>Burst framing\<close>

text \<open>
  C6. In a run whose connection attempt succeeds, the first transmission carries the
  start-of-burst flag and no later one does, whatever the driver does afterwards. When
  no \<^verbatim>\<open>send\<close> of the loop throws, the transmissions are one full buffer for each pass,
  without the end-of-burst flag, followed by exactly one transmission of length zero
  with the end-of-burst flag. A run that did not connect transmits nothing at all.
\<close>

theorem burst_framing:
  "(device_args w \<noteq> [] \<and> connect_throws env = None \<longrightarrow>
      (\<forall>k < length (sends (calls (final_state (run a w env)))).
          start_of_burst (snd (sends (calls (final_state (run a w env))) ! k)) = (k = 0)) \<and>
      ((\<forall>c\<in>set (cycles env). \<not> send_throws c) \<longrightarrow>
          sends (calls (final_state (run a w env))) =
            map (\<lambda>k. (buff_size, \<lparr>start_of_burst = (k = 0), end_of_burst = False\<rparr>))
              [0..<length (cycles env)] @
            [(0, \<lparr>start_of_burst = (cycles env = []), end_of_burst = True\<rparr>)])) \<and>
   (device_args w = [] \<or> connect_throws env \<noteq> None \<longrightarrow>
      sends (calls (final_state (run a w env))) = [])"
proof -
  let ?ss = "sends (calls (final_state (run a w env)))"
  let ?m0 = "\<lparr>start_of_burst = True, end_of_burst = False\<rparr>"
  let ?n = "length (cycles env)"
  have streamed: "?ss = frames ?m0 ?n @ [(0, \<lparr>start_of_burst = (cycles env = []), end_of_burst = True\<rparr>)]"
    if "device_args w \<noteq> []" "connect_throws env = None" "\<forall>c\<in>set (cycles env). \<not> send_throws c"
    using run_streamed(2) [OF that] .
  have first: "start_of_burst (snd (?ss ! k)) = (k = 0)"
    if c: "device_args w \<noteq> []" "connect_throws env = None" and k: "k < length ?ss" for k
  proof (cases "\<exists>c\<in>set (cycles env). send_throws c")
    case True
    then obtain pre c post where sp: "cycles env = pre @ c # post" "send_throws c"
      "\<forall>x\<in>set pre. \<not> send_throws x"
      using split_list_first_prop [of "cycles env" send_throws] by blast
    have ss: "?ss = frames ?m0 (Suc (length pre))"
      using run_send_thrown(2) [OF c sp(1) sp(3) sp(2)] .
    with k have "k < Suc (length pre)" by simp
    from frames_nth [OF this, of ?m0] ss show ?thesis by (simp del: frames.simps)
  next
    case False
    then have ss: "?ss = frames ?m0 ?n @ [(0, \<lparr>start_of_burst = (cycles env = []), end_of_burst = True\<rparr>)]"
      using streamed c by blast
    show ?thesis
    proof (cases "k < ?n")
      case True
      from frames_nth [OF this, of ?m0] ss True show ?thesis by (simp add: nth_append)
    next
      case False
      with k ss have "k = ?n" by simp
      with ss show ?thesis by (simp add: nth_append)
    qed
  qed
  have none: "?ss = []" if "device_args w = [] \<or> connect_throws env \<noteq> None"
    using that by (rule run_no_stream)
  show ?thesis using streamed first none by (simp add: frames_map)
qed

theorem burst_framing_witness:
  "sends (calls (final_state (run exact (fresh_worker ''type=b200'')
      (session None [pass 1 0 False True, pass 1 0 False False])))) =
     [(buff_size, \<lparr>start_of_burst = True, end_of_burst = False\<rparr>),
      (buff_size, \<lparr>start_of_burst = False, end_of_burst = False\<rparr>),
      (0, \<lparr>start_of_burst = False, end_of_burst = True\<rparr>)] \<and>
   sends (calls (final_state (run exact (fresh_worker [])
      (session None [pass 1 0 False True, pass 1 0 False False])))) = []"
  using burst_framing [where a = exact and w = "fresh_worker ''type=b200''"
                          and env = "session None [pass 1 0 False True, pass 1 0 False False]"]
        burst_framing [where a = exact and w = "fresh_worker []"
                          and env = "session None [pass 1 0 False True, pass 1 0 False False]"]
  by (simp add: upt_rec [of 0] upt_rec [of 1] )

subsection \<open>Facts about the registers that the loop does not load\<close>

lemma cycle_ignores_tuning:
  "cycle a (c\<lparr>frequency := x, gain := y\<rparr>) s = cycle a c s"
  by (simp add: cycle_def generate_def transmit_def publish_def)

lemma while_running_ignores_tuning:
  "while_running a (map (\<lambda>c. c\<lparr>frequency := f c, gain := g c\<rparr>) cs) s = while_running a cs s"
  by (induction cs arbitrary: s) (simp_all add: cycle_ignores_tuning cong: sum.case_cong)

lemma run_ignores_tuning:
  "run a w (env\<lparr>cycles := map (\<lambda>c. c\<lparr>frequency := f c, gain := g c\<rparr>) (cycles env)\<rparr>) = run a w env"
proof -
  let ?env = "env\<lparr>cycles := map (\<lambda>c. c\<lparr>frequency := f c, gain := g c\<rparr>) (cycles env)\<rparr>"
  have ca: "connection_attempt a ?env = connection_attempt a env"
    by (rule ext) (simp add: connection_attempt_def try_connect_def)
  have eb: "end_burst ?env = end_burst env"
    by (rule ext) (simp add: end_burst_def Let_def)
  show ?thesis
    by (simp add: run_def ca eb while_running_ignores_tuning)
qed


lemma simulation_returns: "escaped (run a (fresh_worker []) env) = None"
  by (rule run_simulated(1)) (simp add: connection_skipped, simp add: enter_def)

lemma phase_after_one_buffer:
  "phase_at exact (increment exact) 0 buff_size = 24 * pi / 25"
proof -
  have "phase_at exact (pi / 50) 0 (Suc 2047) = pi * real (2047 mod 100 + 1) / 50"
    by (rule phase_at_closed)
  then have p: "phase_at exact (pi / 50) 0 (Suc 2047) = 24 * pi / 25" by simp
  have n: "buff_size = Suc 2047" by (simp add: buff_size_def)
  show ?thesis by (simp only: n increment_eq p)
qed

lemma cos_sin_24_25ths: "cos (24 * pi / 25) < 0 \<and> 0 < sin (24 * pi / 25)"
proof -
  have e: "24 * pi / 25 = pi - pi / 25" by simp
  have "0 < cos (pi / 25)"
    using pi_gt_zero by (intro cos_gt_zero) simp_all
  then have c: "cos (24 * pi / 25) < 0"
    unfolding e by (simp only: cos_pi_minus neg_less_0_iff_less)
  have "0 < sin (pi / 25)"
    using pi_gt_zero by (intro sin_gt_zero) simp_all
  then have s: "0 < sin (24 * pi / 25)"
    unfolding e by (simp only: sin_pi_minus)
  from c s show ?thesis by (rule conjI)
qed

section \<open>Tuning once, synthesising live\<close>

text \<open>
  C7. The only calls that tune the device are those of the connection attempt: in a run
  that connects these are one \<^verbatim>\<open>set_tx_freq\<close> and one \<^verbatim>\<open>set_tx_gain\<close>, with the
  register values loaded during the attempt. Whatever the frequency and gain registers
  hold in later passes, the run is the same. Amplitude and waveform are loaded in every
  pass and take effect in the buffer of that pass: in every arithmetic, each sample of
  that buffer is the narrowed product of the amplitude loaded in that pass with the
  cosine and the sine of the phase (selector 0) or with their signs (any other
  selector), the phase being carried over from the passes before.
\<close>

theorem tuned_once_synthesised_live:
  "tunings (calls (final_state (run a w env))) = tunings (calls (connection_attempt a env (enter a w))) \<and>
   (device_args w \<noteq> [] \<and> connect_throws env = None \<longrightarrow>
      tunings (calls (final_state (run a w env))) =
        [Set_tx_freq (frequency (regs_at_connect env)), Set_tx_gain (gain (regs_at_connect env))]) \<and>
   run a w (env\<lparr>cycles := map (\<lambda>c. c\<lparr>frequency := f c, gain := g c\<rparr>) (cycles env)\<rparr>) = run a w env \<and>
   (escaped (run a w env) = None \<and> cycles env = cs @ [c] \<and> i < buff_size \<longrightarrow>
      buff (final_state (run a w env)) ! i =
        (narrow a (d_mul a
           (if waveform_type c = 0
            then d_cos a (phase_at a (increment a) (lit a 0) (length cs * buff_size + i))
            else if d_gt a (d_cos a (phase_at a (increment a) (lit a 0) (length cs * buff_size + i)))
                      (lit a 0)
                 then lit a 1 else lit a (- 1))
           (amplitude c)),
         narrow a (d_mul a
           (if waveform_type c = 0
            then d_sin a (phase_at a (increment a) (lit a 0) (length cs * buff_size + i))
            else if d_gt a (d_sin a (phase_at a (increment a) (lit a 0) (length cs * buff_size + i)))
                      (lit a 0)
                 then lit a 1 else lit a (- 1))
           (amplitude c))))"
proof -
  have "tunings (calls (final_state (run a w env))) =
        [Set_tx_freq (frequency (regs_at_connect env)), Set_tx_gain (gain (regs_at_connect env))]"
    if "device_args w \<noteq> []" "connect_throws env = None"
    using connection_made_facts(5) [OF that, of a] by (simp add: run_tunings)
  moreover have "buff (final_state (run a w env)) ! i =
        (narrow a (d_mul a
           (if waveform_type c = 0
            then d_cos a (phase_at a (increment a) (lit a 0) (length cs * buff_size + i))
            else if d_gt a (d_cos a (phase_at a (increment a) (lit a 0) (length cs * buff_size + i)))
                      (lit a 0)
                 then lit a 1 else lit a (- 1))
           (amplitude c)),
         narrow a (d_mul a
           (if waveform_type c = 0
            then d_sin a (phase_at a (increment a) (lit a 0) (length cs * buff_size + i))
            else if d_gt a (d_sin a (phase_at a (increment a) (lit a 0) (length cs * buff_size + i)))
                      (lit a 0)
                 then lit a 1 else lit a (- 1))
           (amplitude c)))"
    if "escaped (run a w env) = None" "cycles env = cs @ [c]" "i < buff_size"
    using run_last_buffer(1) [OF that] by (simp add: waveform_sample_def Let_def)
  ultimately show ?thesis
    using run_tunings [of a w env]
      run_ignores_tuning [where a = a and w = w and env = env and f = f and g = g]
    by blast
qed

theorem tuned_once_synthesised_live_witness:
  "tunings (calls (final_state (run exact (fresh_worker ''type=b200'')
      (session None [pass 1 0 False True, pass (1 / 2) 1 False True])))) =
     [Set_tx_freq 915000000, Set_tx_gain 40] \<and>
   buff (final_state (run exact (fresh_worker []) (session None [pass (1 / 2) 0 False True]))) ! 0 =
     (1 / 2, 0) \<and>
   buff (final_state (run exact (fresh_worker []) (session None [pass (1 / 2) 1 False True]))) ! 0 =
     (1 / 2, - (1 / 2)) \<and>
   buff (final_state (run exact (fresh_worker [])
      (session None [pass 1 0 False True, pass (1 / 2) 1 False True]))) ! 0 = (- (1 / 2), 1 / 2) \<and>
   buff (final_state (run exact (fresh_worker [])
      (session None [pass 1 0 False True, pass 1 1 False True]))) ! 0 = (- 1, 1)"
proof -
  have z: "0 < buff_size" by (simp add: buff_size_def)
  note hw = tuned_once_synthesised_live [where a = exact and w = "fresh_worker ''type=b200''"
            and env = "session None [pass 1 0 False True, pass (1 / 2) 1 False True]"
            and f = frequency and g = gain and cs = "[]" and c = "pass 1 0 False True" and i = 0]
  have t: "tunings (calls (final_state (run exact (fresh_worker ''type=b200'')
      (session None [pass 1 0 False True, pass (1 / 2) 1 False True])))) =
     [Set_tx_freq 915000000, Set_tx_gain 40]"
    using hw [THEN conjunct2, THEN conjunct1] by (simp add: default_registers_def)
  note one_sine = tuned_once_synthesised_live [where a = exact and w = "fresh_worker []"
            and env = "session None [pass (1 / 2) 0 False True]"
            and f = frequency and g = gain
            and cs = "[]" and c = "pass (1 / 2) 0 False True" and i = 0]
  have s1: "buff (final_state (run exact (fresh_worker [])
      (session None [pass (1 / 2) 0 False True]))) ! 0 = (1 / 2, 0)"
    using one_sine [THEN conjunct2, THEN conjunct2, THEN conjunct2] z
    by (simp add: simulation_returns)
  note one_square = tuned_once_synthesised_live [where a = exact and w = "fresh_worker []"
            and env = "session None [pass (1 / 2) 1 False True]"
            and f = frequency and g = gain
            and cs = "[]" and c = "pass (1 / 2) 1 False True" and i = 0]
  have s2: "buff (final_state (run exact (fresh_worker [])
      (session None [pass (1 / 2) 1 False True]))) ! 0 = (1 / 2, - (1 / 2))"
    using one_square [THEN conjunct2, THEN conjunct2, THEN conjunct2] z
    by (simp add: simulation_returns)
  note two_half = tuned_once_synthesised_live [where a = exact and w = "fresh_worker []"
            and env = "session None [pass 1 0 False True, pass (1 / 2) 1 False True]"
            and f = frequency and g = gain
            and cs = "[pass 1 0 False True]" and c = "pass (1 / 2) 1 False True" and i = 0]
  have s3: "buff (final_state (run exact (fresh_worker [])
      (session None [pass 1 0 False True, pass (1 / 2) 1 False True]))) ! 0 = (- (1 / 2), 1 / 2)"
    using two_half [THEN conjunct2, THEN conjunct2, THEN conjunct2] z cos_sin_24_25ths
    by (simp add: simulation_returns phase_after_one_buffer)
  note two_one = tuned_once_synthesised_live [where a = exact and w = "fresh_worker []"
            and env = "session None [pass 1 0 False True, pass 1 1 False True]"
            and f = frequency and g = gain
            and cs = "[pass 1 0 False True]" and c = "pass 1 1 False True" and i = 0]
  have s4: "buff (final_state (run exact (fresh_worker [])
      (session None [pass 1 0 False True, pass 1 1 False True]))) ! 0 = (- 1, 1)"
    using two_one [THEN conjunct2, THEN conjunct2, THEN conjunct2] z cos_sin_24_25ths
    by (simp add: simulation_returns phase_after_one_buffer)
  from t s1 s2 s3 s4 show ?thesis by simp
qed



subsection \<open>Facts about ten passes at the constants of the code\<close>

lemma phase_after_nine_buffers:
  "phase_at exact (increment exact) 0 (9 * buff_size) = 16 * pi / 25"
proof -
  have "phase_at exact (pi / 50) 0 (Suc 18431) = pi * real (18431 mod 100 + 1) / 50"
    by (rule phase_at_closed)
  then have p: "phase_at exact (pi / 50) 0 (Suc 18431) = 16 * pi / 25" by simp
  have n: "9 * buff_size = Suc 18431" by (simp add: buff_size_def)
  show ?thesis by (simp only: n increment_eq p)
qed

lemma cos_sin_sixteen_25ths:
  "cos (16 * pi / 25) < 0 \<and> 1 / 2 < sin (16 * pi / 25)"
proof -
  have e: "16 * pi / 25 = pi - 9 * pi / 25" by simp
  have "0 < cos (9 * pi / 25)"
    using pi_gt_zero by (intro cos_gt_zero) simp_all
  then have c: "cos (16 * pi / 25) < 0"
    unfolding e by (simp only: cos_pi_minus neg_less_0_iff_less)
  have "sin (pi / 6) < sin (9 * pi / 25)"
    using pi_gt_zero by (intro sin_monotone_2pi) simp_all
  then have s: "1 / 2 < sin (16 * pi / 25)"
    unfolding e by (simp only: sin_pi_minus sin_30)
  from c s show ?thesis by (rule conjI)
qed

lemma ten_passes: "replicate 10 c = replicate 9 c @ [c]"
proof -
  have "replicate (Suc 9) c = replicate 9 c @ [c]"
    by (simp only: replicate.simps replicate_append_same)
  then show ?thesis by simp
qed

lemma snapshot_after_ten:
  "shared_buffer (final_state (run exact (fresh_worker [])
       (session None (replicate 10 (pass (1 / 2) SINE False True))))) ! 0
   = (cos (16 * pi / 25) * (1 / 2), sin (16 * pi / 25) * (1 / 2))"
proof -
  let ?c = "pass (1 / 2) SINE False True"
  let ?r = "run exact (fresh_worker []) (session None (replicate 10 ?c))"
  have e: "escaped ?r = None"
    by (rule run_simulated(1)) (simp add: connection_skipped, simp add: enter_def)
  have c: "cycles (session None (replicate 10 ?c)) = replicate 9 ?c @ [?c]"
    by (simp only: session_fields ten_passes)
  have z: "0 < buff_size" by (simp add: buff_size_def)
  have "shared_buffer (final_state ?r) = buff (final_state ?r)"
    using run_last_buffer(2) [OF e c z] by simp
  moreover have "buff (final_state ?r) ! 0 =
      waveform_sample exact SINE (1 / 2) (phase_at exact (increment exact) 0 (9 * buff_size))"
    using run_last_buffer(1) [OF e c z] by simp
  ultimately show ?thesis
    by (simp only: phase_after_nine_buffers) (simp add: waveform_sample_def SINE_def)
qed

section \<open>The snapshot in simulation\<close>

text \<open>
  C9, as the claim states it, fails. In simulation and in exact arithmetic, with
  amplitude 0.5 and the sine selected, after ten passes that all publish, sample 0 of the
  snapshot has a negative real part and an imaginary part above 0.25: it is not near
  (0.5, 0).
\<close>

theorem snapshot_after_ten_counterexample:
  "fst (shared_buffer (final_state (run exact (fresh_worker [])
       (session None (replicate 10 (pass (1 / 2) SINE False True))))) ! 0) < 0 \<and>
   1 / 4 < snd (shared_buffer (final_state (run exact (fresh_worker [])
       (session None (replicate 10 (pass (1 / 2) SINE False True))))) ! 0)"
  using cos_sin_sixteen_25ths by (simp add: snapshot_after_ten mult_less_0_iff)

text \<open>
  C9, amended, in exact arithmetic. Starting in simulation with the phase at 0, after
  \<open>k + 1\<close> passes of which
  the last one publishes with the sine selected, sample 0 of the snapshot is the
  amplitude times the cosine and the sine of \<open>k\<close> buffers' worth of phase increments. After
  the first pass this is (amplitude, 0); after ten passes with amplitude 0.5 it is
  0.5 times (cos (16 pi / 25), sin (16 pi / 25)).
\<close>

theorem simulated_snapshot:
  assumes "device_args w = []" and "\<not> hardware_connected w"
    and "cycles env = cs @ [c]" and "try_lock c" and "waveform_type c = SINE"
  shows "shared_buffer (final_state (run exact w env)) ! 0 =
           (amplitude c * cos (real (length cs * buff_size) * increment exact),
            amplitude c * sin (real (length cs * buff_size) * increment exact))"
proof -
  have "\<not> hardware_connected (connection_attempt exact env (enter exact w))"
    using assms(1,2) by (simp add: connection_skipped) (simp add: enter_def)
  then have e: "escaped (run exact w env) = None" by (rule run_simulated(1))
  have z: "0 < buff_size" by (simp add: buff_size_def)
  have "shared_buffer (final_state (run exact w env)) ! 0 =
          waveform_sample exact SINE (amplitude c) (phase_at exact (increment exact) 0 (length cs * buff_size))"
    using run_last_buffer [OF e assms(3) z] assms(4,5) by simp
  then show ?thesis
    using sin_cos_phase_at [of "increment exact" 0 "length cs * buff_size"]
    by (simp add: waveform_sample_def SINE_def mult.commute)
qed

theorem simulated_snapshot_witness:
  "shared_buffer (final_state (run exact (fresh_worker [])
       (session None [pass (1 / 2) SINE False True]))) ! 0 = (1 / 2, 0) \<and>
   shared_buffer (final_state (run exact (fresh_worker [])
       (session None (replicate 10 (pass (1 / 2) SINE False True))))) ! 0 =
     (1 / 2 * cos (real (9 * buff_size) * increment exact), 1 / 2 * sin (real (9 * buff_size) * increment exact))"
proof -
  let ?c = "pass (1 / 2) SINE False True"
  have a: "device_args (fresh_worker []) = []" by simp
  have b: "\<not> hardware_connected (fresh_worker [])" by simp
  have c1: "cycles (session None [?c]) = [] @ [?c]" by simp
  have c10: "cycles (session None (replicate 10 ?c)) = replicate 9 ?c @ [?c]"
    by (simp only: session_fields ten_passes)
  have d: "try_lock ?c" by simp
  have t: "waveform_type ?c = SINE" by simp
  show ?thesis
    using simulated_snapshot [OF a b c1 d t] simulated_snapshot [OF a b c10 d t] by simp
qed

subsection \<open>Facts about the snapshot channel\<close>








section \<open>The snapshot channel\<close>



end
